theory Spec2Isabelle
  imports Main
begin

section \<open>The status-file parser of ovpnstats (parse.go)\<close>

text \<open>
  The development embeds \<^verbatim>\<open>parse.go\<close>: the two record decoders
  \<^verbatim>\<open>parseClientListEntry\<close> and \<^verbatim>\<open>parseRoutingTableEntry\<close> and the line loop of
  \<^verbatim>\<open>ParseStatusFile\<close>, together with the parts of the Go standard library they call
  (\<^verbatim>\<open>strings.Split\<close>, \<^verbatim>\<open>strconv.Atoi\<close>, \<^verbatim>\<open>time.Unix\<close>).

  Go's \<^verbatim>\<open>int\<close> is taken to be 64 bits wide (\<^verbatim>\<open>strconv.IntSize = 64\<close>). Values of
  \<^verbatim>\<open>int\<close> and \<^verbatim>\<open>int64\<close> are modelled as HOL integers; wherever Go's arithmetic can wrap,
  the wrap is written out with \<open>wrap64\<close>. A Go string is a byte sequence, as a HOL
  \<open>string\<close> is.
\<close>

subsection \<open>Outcomes: a returned value or a run-time panic\<close>

text \<open>
  A Go function either returns its result tuple (the \<^verbatim>\<open>error\<close> component being
  \<^verbatim>\<open>nil\<close> or an error value) or it panics. The only panic \<^verbatim>\<open>parse.go\<close> can raise is the
  run-time error \<^verbatim>\<open>index out of range [i] with length n\<close> of a slice access.
\<close>

datatype panic = IndexOutOfRange nat nat

datatype 'a outcome = Returns 'a | Panics panic

definition andThen :: "'a outcome \<Rightarrow> ('a \<Rightarrow> 'b outcome) \<Rightarrow> 'b outcome" where
  "andThen m f = (case m of Panics p \<Rightarrow> Panics p | Returns x \<Rightarrow> f x)"

text \<open>The slice access \<^verbatim>\<open>xs[i]\<close>.\<close>

definition index :: "'a list \<Rightarrow> nat \<Rightarrow> 'a outcome" where
  "index xs i = (if i < length xs then Returns (xs ! i) else Panics (IndexOutOfRange i (length xs)))"

subsection \<open>Error values\<close>

text \<open>
  \<^verbatim>\<open>strconv.NumError{Func, Num, Err}\<close> with \<^verbatim>\<open>Err\<close> one of \<^verbatim>\<open>ErrSyntax\<close>, \<^verbatim>\<open>ErrRange\<close>;
  \<^verbatim>\<open>os.PathError{Op, Path}\<close> for a file that cannot be opened.
\<close>

datatype num_err = ErrSyntax | ErrRange

datatype error = NumError string string num_err | PathError string string

definition syntaxError :: "string \<Rightarrow> string \<Rightarrow> error" where
  "syntaxError fn str = NumError fn str ErrSyntax"

definition rangeError :: "string \<Rightarrow> string \<Rightarrow> error" where
  "rangeError fn str = NumError fn str ErrRange"

subsection \<open>64-bit integers\<close>

definition wrap64 :: "int \<Rightarrow> int" where
  "wrap64 x = (x + 2 ^ 63) mod 2 ^ 64 - 2 ^ 63"

definition wrapU64 :: "nat \<Rightarrow> nat" where
  "wrapU64 x = x mod 2 ^ 64"

text \<open>The conversion \<^verbatim>\<open>int64(un)\<close> of a \<^verbatim>\<open>uint64\<close>.\<close>

definition int64_of_uint64 :: "nat \<Rightarrow> int" where
  "int64_of_uint64 un = wrap64 (int un)"

subsection \<open>strings.Split with a one-byte separator\<close>

text \<open>
  \<^verbatim>\<open>const splitCharacter = ","\<close> is a one-byte string, so \<^verbatim>\<open>strings.Split\<close> cuts the line
  at every occurrence of that byte, keeps empty pieces, and returns one more piece than
  there are separators.
\<close>

definition splitCharacter :: char where
  "splitCharacter = CHR '',''"

fun Split :: "string \<Rightarrow> char \<Rightarrow> string list" where
  "Split [] sep = [[]]"
| "Split (c # s) sep =
     (if c = sep then [] # Split s sep
      else (case Split s sep of
              [] \<Rightarrow> [[c]]
            | w # ws \<Rightarrow> (c # w) # ws))"

subsection \<open>strconv.Atoi\<close>

text \<open>The byte value of a character.\<close>

definition byte :: "char \<Rightarrow> nat" where
  "byte c = of_char c"

text \<open>
  The digit loop of Atoi's fast path:
  \<^verbatim>\<open>for _, ch := range []byte(s) { ch -= '0'; if ch > 9 { return 0, syntaxError };
       n = n*10 + int(ch) }\<close>.
  The subtraction is on a \<^verbatim>\<open>byte\<close> and wraps modulo 256. \<open>None\<close> stands for the early
  return with the syntax error.
\<close>

fun atoiLoop :: "string \<Rightarrow> int \<Rightarrow> int option" where
  "atoiLoop [] n = Some n"
| "atoiLoop (c # s) n =
     (let ch = (byte c + 256 - byte CHR ''0'') mod 256
      in if ch > 9 then None else atoiLoop s (n * 10 + int ch))"

text \<open>
  \<^verbatim>\<open>strconv.ParseUint(s, 10, 0)\<close>, the only way Atoi's slow path reaches it: base 10,
  so no prefix and no underscores are accepted; \<^verbatim>\<open>bitSize = 0\<close> stands for 64 bits.
  The loop returns at the first offending byte; a range error is returned as soon as the
  value overflows, without looking at the rest of the string. Only the \<^verbatim>\<open>Err\<close> of the
  \<^verbatim>\<open>NumError\<close> is kept here: \<^verbatim>\<open>ParseInt\<close> overwrites its \<^verbatim>\<open>Func\<close> and \<^verbatim>\<open>Num\<close>.
\<close>

definition maxUint64 :: nat where
  "maxUint64 = 2 ^ 64 - 1"

definition lower :: "nat \<Rightarrow> nat" where
  "lower c = (if (c div 32) mod 2 = 1 then c else c + 32)"

fun parseUintLoop :: "string \<Rightarrow> nat \<Rightarrow> nat \<times> num_err option" where
  "parseUintLoop [] n = (n, None)"
| "parseUintLoop (c # s) n =
     (let d = (if byte CHR ''0'' \<le> byte c \<and> byte c \<le> byte CHR ''9''
                 then Some (byte c - byte CHR ''0'')
               else if byte CHR ''a'' \<le> lower (byte c) \<and> lower (byte c) \<le> byte CHR ''z''
                 then Some (lower (byte c) - byte CHR ''a'' + 10)
               else None)
      in case d of
           None \<Rightarrow> (0, Some ErrSyntax)
         | Some d \<Rightarrow>
             if d \<ge> 10 then (0, Some ErrSyntax)
             else if n \<ge> maxUint64 div 10 + 1 then (maxUint64, Some ErrRange)
             else let n' = wrapU64 (n * 10); n1 = wrapU64 (n' + d)
                  in if n1 < n' \<or> n1 > maxUint64 then (maxUint64, Some ErrRange)
                     else parseUintLoop s n1)"

definition ParseUint :: "string \<Rightarrow> nat \<times> num_err option" where
  "ParseUint s = (if s = [] then (0, Some ErrSyntax) else parseUintLoop s 0)"

text \<open>\<^verbatim>\<open>strconv.ParseInt(s, 10, 0)\<close>.\<close>

definition ParseInt :: "string \<Rightarrow> int \<times> error option" where
  "ParseInt s =
     (if s = [] then (0, Some (syntaxError ''ParseInt'' s))
      else
        let s0 = s;
            neg = (hd s = CHR ''-'');
            s = (if hd s = CHR ''+'' \<or> hd s = CHR ''-'' then tl s else s);
            cutoff = (2 ^ 63 :: nat)
        in case ParseUint s of
             (un, Some ErrSyntax) \<Rightarrow> (0, Some (syntaxError ''ParseInt'' s0))
           | (un, _) \<Rightarrow>
               if \<not> neg \<and> un \<ge> cutoff then (int cutoff - 1, Some (rangeError ''ParseInt'' s0))
               else if neg \<and> un > cutoff then (- int cutoff, Some (rangeError ''ParseInt'' s0))
               else let n = int64_of_uint64 un
                    in (if neg then wrap64 (- n) else n, None))"

text \<open>
  \<^verbatim>\<open>strconv.Atoi\<close>: the fast path for strings of 1 to 18 bytes, which cannot overflow an
  \<^verbatim>\<open>int\<close>, and the slow path through \<^verbatim>\<open>ParseInt\<close>, whose error is relabelled with
  \<^verbatim>\<open>Func = "Atoi"\<close>.
\<close>

definition Atoi :: "string \<Rightarrow> int \<times> error option" where
  "Atoi s =
     (let sLen = length s in
      if 0 < sLen \<and> sLen < 19 then
        let s0 = s;
            s' = (if hd s = CHR ''-'' \<or> hd s = CHR ''+'' then tl s else s)
        in if (hd s = CHR ''-'' \<or> hd s = CHR ''+'') \<and> length s' < 1
             then (0, Some (syntaxError ''Atoi'' s0))
           else case atoiLoop s' 0 of
                  None \<Rightarrow> (0, Some (syntaxError ''Atoi'' s0))
                | Some n \<Rightarrow> (if hd s0 = CHR ''-'' then - n else n, None)
      else
        case ParseInt s of
          (i64, Some (NumError fn num e)) \<Rightarrow> (i64, Some (NumError ''Atoi'' num e))
        | (i64, err) \<Rightarrow> (i64, err))"

subsection \<open>time.Time, time.Unix and the accessors Unix and Nanosecond\<close>

text \<open>
  A \<^verbatim>\<open>time.Time\<close> is the triple \<^verbatim>\<open>{wall uint64; ext int64; loc *Location}\<close>. A value
  built by \<^verbatim>\<open>time.Unix\<close> has no monotonic reading: \<^verbatim>\<open>wall\<close> holds the nanoseconds and
  \<^verbatim>\<open>ext\<close> the seconds since year 1. The zero \<^verbatim>\<open>Time{}\<close> has a nil location.
\<close>

datatype Location = Local

record Time =
  wall :: nat
  ext :: int
  loc :: "Location option"

definition Time_zero :: Time where
  "Time_zero = \<lparr>wall = 0, ext = 0, loc = None\<rparr>"

definition unixToInternal :: int where
  "unixToInternal = (1969 * 365 + 1969 div 4 - 1969 div 100 + 1969 div 400) * 86400"

definition internalToUnix :: int where
  "internalToUnix = - unixToInternal"

definition wallToInternal :: int where
  "wallToInternal = (1884 * 365 + 1884 div 4 - 1884 div 100 + 1884 div 400) * 86400"

definition hasMonotonic :: nat where
  "hasMonotonic = 2 ^ 63"

definition nsecMask :: nat where
  "nsecMask = 2 ^ 30 - 1"

definition nsecShift :: nat where
  "nsecShift = 30"

text \<open>Go's integer division truncates towards zero.\<close>

definition quo :: "int \<Rightarrow> int \<Rightarrow> int" where
  "quo a b = sgn a * sgn b * (\<bar>a\<bar> div \<bar>b\<bar>)"

definition unixTime :: "int \<Rightarrow> int \<Rightarrow> Time" where
  "unixTime sec nsec = \<lparr>wall = nat (nsec mod 2 ^ 64), ext = wrap64 (sec + unixToInternal), loc = Some Local\<rparr>"

definition time_Unix :: "int \<Rightarrow> int \<Rightarrow> Time" where
  "time_Unix sec nsec =
     (if nsec < 0 \<or> nsec \<ge> 1000000000 then
        let n = quo nsec 1000000000;
            sec = wrap64 (sec + n);
            nsec = wrap64 (nsec - wrap64 (n * 1000000000))
        in if nsec < 0 then unixTime (wrap64 (sec - 1)) (nsec + 1000000000)
           else unixTime sec nsec
      else unixTime sec nsec)"

text \<open>\<^verbatim>\<open>(*Time).sec\<close>, \<^verbatim>\<open>Time.Unix\<close> and \<^verbatim>\<open>Time.Nanosecond\<close>.\<close>

definition Time_sec :: "Time \<Rightarrow> int" where
  "Time_sec t =
     (if (wall t div hasMonotonic) mod 2 \<noteq> 0
        then wrap64 (wallToInternal + int (((wall t * 2) mod 2 ^ 64) div 2 ^ (nsecShift + 1)))
      else ext t)"

definition Time_Unix :: "Time \<Rightarrow> int" where
  "Time_Unix t = wrap64 (Time_sec t + internalToUnix)"

definition Time_Nanosecond :: "Time \<Rightarrow> int" where
  "Time_Nanosecond t = int (wall t mod (nsecMask + 1))"

subsection \<open>The records\<close>

record ClientInfo =
  Name :: string
  RealAddress :: string
  VirtualAddress :: string
  VirtualV6Address :: string
  BytesReceived :: int
  BytesSent :: int
  ConnectedSince :: Time
  Username :: string
  ClientID :: int
  PeerID :: int
  DataChannelCipher :: string

record RoutingInfo =
  RVirtualAddress :: string
  CommonName :: string
  RRealAddress :: string
  LastRef :: Time

text \<open>The zero values \<^verbatim>\<open>ClientInfo{}\<close> and \<^verbatim>\<open>RoutingInfo{}\<close> returned beside an error.\<close>

definition ClientInfo_zero :: ClientInfo where
  "ClientInfo_zero =
     \<lparr>Name = [], RealAddress = [], VirtualAddress = [], VirtualV6Address = [],
      BytesReceived = 0, BytesSent = 0, ConnectedSince = Time_zero, Username = [],
      ClientID = 0, PeerID = 0, DataChannelCipher = []\<rparr>"

definition RoutingInfo_zero :: RoutingInfo where
  "RoutingInfo_zero =
     \<lparr>RVirtualAddress = [], CommonName = [], RRealAddress = [], LastRef = Time_zero\<rparr>"

subsection \<open>The decoders\<close>

text \<open>
  \<^verbatim>\<open>parseClientListEntry\<close> reads the integer positions 5, 6, 8, 10, 11 in that order and
  returns at the first Atoi error; then the struct literal reads positions 1, 2, 3, 4, 9
  and 12. No length is checked, so each access can panic.
\<close>

definition parseClientListEntry :: "string \<Rightarrow> (ClientInfo \<times> error option) outcome" where
  "parseClientListEntry line =
     (let parts = Split line splitCharacter in
      andThen (index parts 5) (\<lambda>p5. case Atoi p5 of
        (_, Some err) \<Rightarrow> Returns (ClientInfo_zero, Some err)
      | (bytesReceived, None) \<Rightarrow>
      andThen (index parts 6) (\<lambda>p6. case Atoi p6 of
        (_, Some err) \<Rightarrow> Returns (ClientInfo_zero, Some err)
      | (bytesSent, None) \<Rightarrow>
      andThen (index parts 8) (\<lambda>p8. case Atoi p8 of
        (_, Some err) \<Rightarrow> Returns (ClientInfo_zero, Some err)
      | (connectedSinceUnix, None) \<Rightarrow>
      andThen (index parts 10) (\<lambda>p10. case Atoi p10 of
        (_, Some err) \<Rightarrow> Returns (ClientInfo_zero, Some err)
      | (clientID, None) \<Rightarrow>
      andThen (index parts 11) (\<lambda>p11. case Atoi p11 of
        (_, Some err) \<Rightarrow> Returns (ClientInfo_zero, Some err)
      | (peerID, None) \<Rightarrow>
      andThen (index parts 1) (\<lambda>p1.
      andThen (index parts 2) (\<lambda>p2.
      andThen (index parts 3) (\<lambda>p3.
      andThen (index parts 4) (\<lambda>p4.
      andThen (index parts 9) (\<lambda>p9.
      andThen (index parts 12) (\<lambda>p12.
        Returns
          (\<lparr>Name = p1, RealAddress = p2, VirtualAddress = p3, VirtualV6Address = p4,
            BytesReceived = bytesReceived, BytesSent = bytesSent,
            ConnectedSince = time_Unix connectedSinceUnix 0, Username = p9,
            ClientID = clientID, PeerID = peerID, DataChannelCipher = p12\<rparr>,
           None)))))))))))))"

definition parseRoutingTableEntry :: "string \<Rightarrow> (RoutingInfo \<times> error option) outcome" where
  "parseRoutingTableEntry line =
     (let parts = Split line splitCharacter in
      andThen (index parts 5) (\<lambda>p5. case Atoi p5 of
        (_, Some err) \<Rightarrow> Returns (RoutingInfo_zero, Some err)
      | (lastRefUnix, None) \<Rightarrow>
      andThen (index parts 1) (\<lambda>p1.
      andThen (index parts 2) (\<lambda>p2.
      andThen (index parts 3) (\<lambda>p3.
        Returns
          (\<lparr>RVirtualAddress = p1, CommonName = p2, RRealAddress = p3,
            LastRef = time_Unix lastRefUnix 0\<rparr>,
           None))))))"

subsection \<open>The scanner\<close>

text \<open>
  The body of the \<^verbatim>\<open>for scanner.Scan()\<close> loop, one call per line. The \<^verbatim>\<open>break\<close> of the
  \<^verbatim>\<open>"END"\<close> case leaves the \<^verbatim>\<open>switch\<close>, not the loop, so the loop goes on with the next
  line. On a decode error the function returns \<^verbatim>\<open>nil, nil, err\<close>.
\<close>

type_synonym scan_result = "ClientInfo list \<times> RoutingInfo list \<times> error option"

fun scanLoop :: "string list \<Rightarrow> ClientInfo list \<Rightarrow> RoutingInfo list \<Rightarrow> scan_result outcome" where
  "scanLoop [] clients routes = Returns (clients, routes, None)"
| "scanLoop (line # rest) clients routes =
     (case index (Split line splitCharacter) 0 of
        Panics p \<Rightarrow> Panics p
      | Returns marker \<Rightarrow>
          if marker = ''HEADER'' then scanLoop rest clients routes
          else if marker = ''END'' then scanLoop rest clients routes
          else if marker = ''CLIENT_LIST'' then
            (case parseClientListEntry line of
               Panics p \<Rightarrow> Panics p
             | Returns (info, Some err) \<Rightarrow> Returns ([], [], Some err)
             | Returns (info, None) \<Rightarrow> scanLoop rest (clients @ [info]) routes)
          else if marker = ''ROUTING_TABLE'' then
            (case parseRoutingTableEntry line of
               Panics p \<Rightarrow> Panics p
             | Returns (info, Some err) \<Rightarrow> Returns ([], [], Some err)
             | Returns (info, None) \<Rightarrow> scanLoop rest clients (routes @ [info]))
          else scanLoop rest clients routes)"

text \<open>
  \<^verbatim>\<open>ParseStatusFile\<close>. The file system maps a name that \<^verbatim>\<open>os.Open\<close> can open to the
  sequence of lines that the \<^verbatim>\<open>bufio.Scanner\<close> yields for it.
\<close>

type_synonym filesystem = "string \<rightharpoonup> string list"

definition ParseStatusFile :: "filesystem \<Rightarrow> string \<Rightarrow> scan_result outcome" where
  "ParseStatusFile fs filename =
     (case fs filename of
        None \<Rightarrow> Returns ([], [], Some (PathError ''open'' filename))
      | Some lines \<Rightarrow> scanLoop lines [] [])"

subsection \<open>Vocabulary of the properties\<close>

text \<open>
  The leading field of a line, which the scanner dispatches on, and the record that a
  decoder returns for a line. These name what the properties below talk about; the
  program itself is the definitions above.
\<close>

definition marker :: "string \<Rightarrow> string" where
  "marker line = hd (Split line splitCharacter)"

definition isClientList :: "string \<Rightarrow> bool" where
  "isClientList line = (marker line = ''CLIENT_LIST'')"

definition isRoutingTable :: "string \<Rightarrow> bool" where
  "isRoutingTable line = (marker line = ''ROUTING_TABLE'')"

definition clientRecord :: "string \<Rightarrow> ClientInfo" where
  "clientRecord line =
     (case parseClientListEntry line of
        Returns (info, err) \<Rightarrow> info
      | Panics p \<Rightarrow> ClientInfo_zero)"

definition routingRecord :: "string \<Rightarrow> RoutingInfo" where
  "routingRecord line =
     (case parseRoutingTableEntry line of
        Returns (info, err) \<Rightarrow> info
      | Panics p \<Rightarrow> RoutingInfo_zero)"

section \<open>Properties of the library functions\<close>

subsection \<open>Outcomes, slices and Split\<close>

lemma andThen_Returns: "andThen (Returns x) f = f x"
  by (simp add: andThen_def)

lemma andThen_Panics: "andThen (Panics p) f = Panics p"
  by (simp add: andThen_def)

lemma index_in_range: "i < length xs \<Longrightarrow> index xs i = Returns (xs ! i)"
  by (simp add: index_def)

lemma index_out_of_range: "\<not> i < length xs \<Longrightarrow> index xs i = Panics (IndexOutOfRange i (length xs))"
  by (simp add: index_def)

lemma Split_not_Nil: "Split s sep \<noteq> []"
  by (induction s) (auto split: list.splits)

lemma Split_length: "length (Split s sep) = Suc (length (filter (\<lambda>c. c = sep) s))"
  by (induction s) (auto split: list.splits simp: Split_not_Nil)

subsection \<open>Wrap-around\<close>

lemma wrap64_range: "- (2 ^ 63) \<le> wrap64 x \<and> wrap64 x < 2 ^ 63"
  by (simp add: wrap64_def)

lemma wrap64_id: "- (2 ^ 63) \<le> x \<Longrightarrow> x < 2 ^ 63 \<Longrightarrow> wrap64 x = x"
  by (simp add: wrap64_def)

lemma wrap64_add_left: "wrap64 (wrap64 x + y) = wrap64 (x + y)"
proof -
  have "(wrap64 x + y + 2 ^ 63) mod 2 ^ 64 = ((x + 2 ^ 63) mod 2 ^ 64 + y) mod 2 ^ 64"
    by (simp add: wrap64_def)
  also have "\<dots> = (x + 2 ^ 63 + y) mod 2 ^ 64"
    by (rule mod_add_left_eq)
  finally have "(wrap64 x + y + 2 ^ 63) mod 2 ^ 64 = (x + y + 2 ^ 63) mod 2 ^ 64"
    by (simp only: add.assoc add.commute [of "2 ^ 63" y])
  then show ?thesis
    unfolding wrap64_def [of "wrap64 x + y"] wrap64_def [of "x + y"] by simp
qed

lemma wrap64_nat: "un < 2 ^ 63 \<Longrightarrow> wrap64 (int un) = int un"
  by (simp add: wrap64_def)

subsection \<open>Atoi returns an int in range\<close>

text \<open>
  The fast path does its arithmetic without any check. It is sound because at most 18
  digits are read: the accumulated value stays below \<open>10 ^ 18\<close>, so no \<^verbatim>\<open>int\<close>
  operation of the loop wraps, and the model's unbounded arithmetic is Go's.
\<close>

lemma atoiLoop_bounds:
  "atoiLoop s n = Some m \<Longrightarrow> 0 \<le> n \<Longrightarrow> n \<le> m \<and> m < (n + 1) * 10 ^ length s"
proof (induction s arbitrary: n)
  case Nil
  then show ?case by simp
next
  case (Cons c s)
  let ?ch = "(byte c + 256 - byte CHR ''0'') mod 256"
  from Cons.prems have ch: "?ch \<le> 9" and rec: "atoiLoop s (n * 10 + int ?ch) = Some m"
    by (auto simp: Let_def split: if_splits)
  from Cons.IH [OF rec] Cons.prems(2)
  have ih: "n * 10 + int ?ch \<le> m" "m < (n * 10 + int ?ch + 1) * 10 ^ length s"
    by auto
  have "(n * 10 + int ?ch + 1) * 10 ^ length s \<le> ((n + 1) * 10) * 10 ^ length s"
    using ch by (intro mult_right_mono) auto
  with ih(2) have "m < ((n + 1) * 10) * 10 ^ length s"
    by (rule less_le_trans)
  then have "m < (n + 1) * 10 ^ length (c # s)"
    by (simp add: algebra_simps)
  moreover from ih(1) Cons.prems(2) have "n \<le> m"
    by simp
  ultimately show ?case by blast
qed

lemma Atoi_range:
  assumes "Atoi s = (n, None)"
  shows "- (2 ^ 63) \<le> n \<and> n < 2 ^ 63"
proof (cases "0 < length s \<and> length s < 19")
  case True
  let ?s' = "if hd s = CHR ''-'' \<or> hd s = CHR ''+'' then tl s else s"
  from assms True obtain m where m: "atoiLoop ?s' 0 = Some m"
    and n: "n = (if hd s = CHR ''-'' then - m else m)"
    by (auto simp: Atoi_def Let_def split: if_splits option.splits)
  have "length ?s' \<le> 18" using True by auto
  then have "(10::int) ^ length ?s' \<le> 10 ^ 18"
    by (intro power_increasing) auto
  with atoiLoop_bounds [OF m] have "0 \<le> m" "m < 10 ^ 18" by auto
  with n show ?thesis by auto
next
  case False
  with assms obtain un where "n = wrap64 un"
    by (auto simp: Atoi_def ParseInt_def Let_def int64_of_uint64_def syntaxError_def rangeError_def
        split: if_splits option.splits prod.splits num_err.splits error.splits)
  then show ?thesis using wrap64_range by simp
qed

lemma Atoi_nonneg:
  assumes "Atoi s = (n, None)" and "hd s \<noteq> CHR ''-''"
  shows "0 \<le> n"
proof (cases "0 < length s \<and> length s < 19")
  case True
  let ?s' = "if hd s = CHR ''-'' \<or> hd s = CHR ''+'' then tl s else s"
  from assms True obtain m where m: "atoiLoop ?s' 0 = Some m" and n: "n = m"
    by (auto simp: Atoi_def Let_def split: if_splits option.splits)
  with atoiLoop_bounds [OF m] show ?thesis by simp
next
  case False
  with assms show ?thesis
    by (auto simp: Atoi_def ParseInt_def Let_def int64_of_uint64_def syntaxError_def rangeError_def
        wrap64_nat split: if_splits option.splits prod.splits num_err.splits error.splits)
qed

subsection \<open>Timestamps built from whole seconds\<close>

lemma time_Unix_zero_nsec:
  "time_Unix sec 0 = \<lparr>wall = 0, ext = wrap64 (sec + unixToInternal), loc = Some Local\<rparr>"
  by (simp add: time_Unix_def unixTime_def)

lemma Time_Unix_time_Unix:
  assumes "- (2 ^ 63) \<le> sec" "sec < 2 ^ 63"
  shows "Time_Unix (time_Unix sec 0) = sec"
proof -
  have "Time_Unix (time_Unix sec 0) = wrap64 (wrap64 (sec + unixToInternal) + internalToUnix)"
    by (simp add: time_Unix_zero_nsec Time_Unix_def Time_sec_def)
  also have "\<dots> = wrap64 (sec + unixToInternal + internalToUnix)"
    by (rule wrap64_add_left)
  also have "\<dots> = sec"
    using assms by (simp add: internalToUnix_def wrap64_id)
  finally show ?thesis .
qed

lemma Time_Nanosecond_time_Unix: "Time_Nanosecond (time_Unix sec 0) = 0"
  by (simp add: time_Unix_zero_nsec Time_Nanosecond_def)

section \<open>Properties of the scanner\<close>

lemma index_marker: "index (Split line splitCharacter) 0 = Returns (marker line)"
  using Split_not_Nil [of line splitCharacter]
  by (cases "Split line splitCharacter") (simp_all add: index_def marker_def)

lemma scanLoop_ignored:
  assumes "marker line \<noteq> ''CLIENT_LIST''" and "marker line \<noteq> ''ROUTING_TABLE''"
  shows "scanLoop (line # rest) clients routes = scanLoop rest clients routes"
  using assms by (simp add: scanLoop.simps(2) index_marker)

lemma scanLoop_client:
  assumes "marker line = ''CLIENT_LIST''"
  shows "scanLoop (line # rest) clients routes =
           (case parseClientListEntry line of
              Panics p \<Rightarrow> Panics p
            | Returns (info, Some err) \<Rightarrow> Returns ([], [], Some err)
            | Returns (info, None) \<Rightarrow> scanLoop rest (clients @ [info]) routes)"
  using assms by (simp add: scanLoop.simps(2) index_marker)

lemma scanLoop_routing:
  assumes "marker line = ''ROUTING_TABLE''"
  shows "scanLoop (line # rest) clients routes =
           (case parseRoutingTableEntry line of
              Panics p \<Rightarrow> Panics p
            | Returns (info, Some err) \<Rightarrow> Returns ([], [], Some err)
            | Returns (info, None) \<Rightarrow> scanLoop rest clients (routes @ [info]))"
  using assms by (simp add: scanLoop.simps(2) index_marker)

text \<open>The three cases of one loop iteration, by the kind of the line.\<close>

lemma scanLoop_cases:
  "scanLoop (line # rest) clients routes =
     (if isClientList line then
        (case parseClientListEntry line of
           Panics p \<Rightarrow> Panics p
         | Returns (info, Some err) \<Rightarrow> Returns ([], [], Some err)
         | Returns (info, None) \<Rightarrow> scanLoop rest (clients @ [info]) routes)
      else if isRoutingTable line then
        (case parseRoutingTableEntry line of
           Panics p \<Rightarrow> Panics p
         | Returns (info, Some err) \<Rightarrow> Returns ([], [], Some err)
         | Returns (info, None) \<Rightarrow> scanLoop rest clients (routes @ [info]))
      else scanLoop rest clients routes)"
  by (simp add: scanLoop.simps(2) index_marker isClientList_def isRoutingTable_def)

declare scanLoop.simps(2) [simp del]

lemma scanLoop_drop_ignored:
  assumes "marker line \<noteq> ''CLIENT_LIST''" and "marker line \<noteq> ''ROUTING_TABLE''"
  shows "scanLoop (pre @ line # post) clients routes = scanLoop (pre @ post) clients routes"
proof (induction pre arbitrary: clients routes)
  case Nil
  show ?case by (simp add: scanLoop_ignored [OF assms])
next
  case (Cons a pre)
  show ?case
    unfolding append_Cons scanLoop_cases [of a] Cons.IH ..
qed

lemma scanLoop_success:
  assumes "scanLoop lines clients routes = Returns (cs, rs, None)"
  shows "cs = clients @ map clientRecord (filter isClientList lines)
       \<and> rs = routes @ map routingRecord (filter isRoutingTable lines)
       \<and> (\<forall>l \<in> set lines. isClientList l \<longrightarrow> parseClientListEntry l = Returns (clientRecord l, None))
       \<and> (\<forall>l \<in> set lines. isRoutingTable l \<longrightarrow> parseRoutingTableEntry l = Returns (routingRecord l, None))"
  using assms
proof (induction lines arbitrary: clients routes)
  case Nil
  then show ?case by simp
next
  case (Cons a lines)
  have excl: "\<not> (isClientList a \<and> isRoutingTable a)"
    by (auto simp: isClientList_def isRoutingTable_def)
  consider (client) "isClientList a" | (routing) "\<not> isClientList a" "isRoutingTable a"
    | (other) "\<not> isClientList a" "\<not> isRoutingTable a"
    by blast
  then show ?case
  proof cases
    case client
    with Cons.prems obtain info where dec: "parseClientListEntry a = Returns (info, None)"
      and rest: "scanLoop lines (clients @ [info]) routes = Returns (cs, rs, None)"
      by (auto simp: scanLoop_cases split: outcome.splits option.splits)
    from dec have rec: "clientRecord a = info"
      by (simp add: clientRecord_def)
    from client excl have nr: "\<not> isRoutingTable a" by blast
    from Cons.IH [OF rest] client nr dec rec show ?thesis
      by simp
  next
    case routing
    with Cons.prems obtain info where dec: "parseRoutingTableEntry a = Returns (info, None)"
      and rest: "scanLoop lines clients (routes @ [info]) = Returns (cs, rs, None)"
      by (auto simp: scanLoop_cases split: outcome.splits option.splits)
    from dec have rec: "routingRecord a = info"
      by (simp add: routingRecord_def)
    from Cons.IH [OF rest] routing dec rec show ?thesis
      by simp
  next
    case other
    with Cons.prems have rest: "scanLoop lines clients routes = Returns (cs, rs, None)"
      by (simp add: scanLoop_cases)
    from Cons.IH [OF rest] other show ?thesis
      by simp
  qed
qed

section \<open>Properties of the decoders\<close>

lemma Atoi_cases:
  obtains (ok) n where "Atoi s = (n, None)" | (err) n e where "Atoi s = (n, Some e)"
  by (cases "Atoi s") (metis option.exhaust)

lemma parseClientListEntry_ok:
  assumes "parts = Split line splitCharacter" and "13 \<le> length parts"
    and "Atoi (parts ! 5) = (bytesReceived, None)"
    and "Atoi (parts ! 6) = (bytesSent, None)"
    and "Atoi (parts ! 8) = (connectedSinceUnix, None)"
    and "Atoi (parts ! 10) = (clientID, None)"
    and "Atoi (parts ! 11) = (peerID, None)"
  shows "parseClientListEntry line =
     Returns
       (\<lparr>Name = parts ! 1, RealAddress = parts ! 2, VirtualAddress = parts ! 3,
         VirtualV6Address = parts ! 4, BytesReceived = bytesReceived, BytesSent = bytesSent,
         ConnectedSince = time_Unix connectedSinceUnix 0, Username = parts ! 9,
         ClientID = clientID, PeerID = peerID, DataChannelCipher = parts ! 12\<rparr>, None)"
  using assms
  by (simp add: parseClientListEntry_def Let_def index_in_range andThen_Returns)

lemma parseRoutingTableEntry_ok:
  assumes "parts = Split line splitCharacter" and "6 \<le> length parts"
    and "Atoi (parts ! 5) = (lastRefUnix, None)"
  shows "parseRoutingTableEntry line =
     Returns
       (\<lparr>RVirtualAddress = parts ! 1, CommonName = parts ! 2, RRealAddress = parts ! 3,
         LastRef = time_Unix lastRefUnix 0\<rparr>, None)"
  using assms
  by (simp add: parseRoutingTableEntry_def Let_def index_in_range andThen_Returns)

lemma alice_fields:
  "Split ''CLIENT_LIST,alice,1.2.3.4,10.0.0.1,,1000,2000,Mon Jan 1 00:00:00 2024,1704067200,alice,5,6,AES-256-GCM'' splitCharacter
   = [''CLIENT_LIST'', ''alice'', ''1.2.3.4'', ''10.0.0.1'', '''', ''1000'', ''2000'',
      ''Mon Jan 1 00:00:00 2024'', ''1704067200'', ''alice'', ''5'', ''6'', ''AES-256-GCM'']"
  by (simp add: splitCharacter_def)

lemma Atoi_1000: "Atoi ''1000'' = (1000, None)"
  by (simp add: Atoi_def byte_def)

lemma Atoi_2000: "Atoi ''2000'' = (2000, None)"
  by (simp add: Atoi_def byte_def)

lemma Atoi_1704067200: "Atoi ''1704067200'' = (1704067200, None)"
  by (simp add: Atoi_def byte_def)

lemma Atoi_5: "Atoi ''5'' = (5, None)"
  by (simp add: Atoi_def byte_def)

lemma Atoi_6: "Atoi ''6'' = (6, None)"
  by (simp add: Atoi_def byte_def)

lemma alice_decoded:
  "parseClientListEntry ''CLIENT_LIST,alice,1.2.3.4,10.0.0.1,,1000,2000,Mon Jan 1 00:00:00 2024,1704067200,alice,5,6,AES-256-GCM''
   = Returns
       (\<lparr>Name = ''alice'', RealAddress = ''1.2.3.4'', VirtualAddress = ''10.0.0.1'',
         VirtualV6Address = '''', BytesReceived = 1000, BytesSent = 2000,
         ConnectedSince = time_Unix 1704067200 0, Username = ''alice'',
         ClientID = 5, PeerID = 6, DataChannelCipher = ''AES-256-GCM''\<rparr>, None)"
  using parseClientListEntry_ok [OF alice_fields [symmetric], of 1000 2000 1704067200 5 6]
  by (simp add: Atoi_1000 Atoi_2000 Atoi_1704067200 Atoi_5 Atoi_6)

lemma Atoi_error:
  assumes "Atoi s = (n, Some e)"
  shows "\<exists>k. e = NumError ''Atoi'' s k"
  using assms
  by (auto simp: Atoi_def ParseInt_def Let_def syntaxError_def rangeError_def
      split: if_splits option.splits prod.splits num_err.splits error.splits)

text \<open>A decoder that returns a record has read every position it needs.\<close>

lemma parseClientListEntry_success:
  assumes "parseClientListEntry line = Returns (info, None)" and "parts = Split line splitCharacter"
  shows "13 \<le> length parts
       \<and> Atoi (parts ! 5) = (BytesReceived info, None)
       \<and> Atoi (parts ! 6) = (BytesSent info, None)
       \<and> (\<exists>connectedSinceUnix. Atoi (parts ! 8) = (connectedSinceUnix, None)
            \<and> ConnectedSince info = time_Unix connectedSinceUnix 0)
       \<and> Atoi (parts ! 10) = (ClientID info, None)
       \<and> Atoi (parts ! 11) = (PeerID info, None)"
proof -
  have len: "13 \<le> length parts"
  proof (rule ccontr)
    assume "\<not> 13 \<le> length parts"
    then have "index parts 12 = Panics (IndexOutOfRange 12 (length parts))"
      by (simp add: index_def)
    with assms show False
      by (auto simp: parseClientListEntry_def Let_def andThen_def
          split: outcome.splits prod.splits option.splits)
  qed
  obtain n5 n6 n8 n10 n11 where
    "Atoi (parts ! 5) = (n5, None)" "Atoi (parts ! 6) = (n6, None)"
    "Atoi (parts ! 8) = (n8, None)" "Atoi (parts ! 10) = (n10, None)"
    "Atoi (parts ! 11) = (n11, None)"
    using assms len
    by (auto simp: parseClientListEntry_def Let_def index_in_range andThen_Returns
        split: prod.splits option.splits)
  with parseClientListEntry_ok [OF assms(2) len this] assms(1) len show ?thesis
    by auto
qed

lemma parseRoutingTableEntry_success:
  assumes "parseRoutingTableEntry line = Returns (info, None)" and "parts = Split line splitCharacter"
  shows "6 \<le> length parts
       \<and> (\<exists>lastRefUnix. Atoi (parts ! 5) = (lastRefUnix, None) \<and> LastRef info = time_Unix lastRefUnix 0)"
  using assms
  by (auto simp: parseRoutingTableEntry_def Let_def index_def andThen_def
      split: if_splits prod.splits option.splits)

section \<open>The claims about the decoders\<close>

text \<open>
  C4: a \<^verbatim>\<open>CLIENT_LIST\<close> line with at least 13 fields whose positions 5, 6, 8, 10 and 11
  are accepted by Atoi decodes to the record with \<open>Name\<close> = field 1, \<open>RealAddress\<close> =
  field 2, \<open>VirtualAddress\<close> = field 3, \<open>VirtualV6Address\<close> = field 4 verbatim,
  \<open>BytesReceived\<close> = field 5, \<open>BytesSent\<close> = field 6, \<open>ConnectedSince\<close> = the time
  built from field 8 as epoch seconds with no nanoseconds, \<open>Username\<close> = field 9,
  \<open>ClientID\<close> = field 10, \<open>PeerID\<close> = field 11, \<open>DataChannelCipher\<close> = field 12; and
  the line for alice decodes to the record of the scenario.
\<close>

theorem client_list_line_decodes:
  assumes "parts = Split line splitCharacter" and "13 \<le> length parts"
    and "Atoi (parts ! 5) = (bytesReceived, None)"
    and "Atoi (parts ! 6) = (bytesSent, None)"
    and "Atoi (parts ! 8) = (connectedSinceUnix, None)"
    and "Atoi (parts ! 10) = (clientID, None)"
    and "Atoi (parts ! 11) = (peerID, None)"
  shows "parseClientListEntry line =
           Returns
             (\<lparr>Name = parts ! 1, RealAddress = parts ! 2, VirtualAddress = parts ! 3,
               VirtualV6Address = parts ! 4, BytesReceived = bytesReceived,
               BytesSent = bytesSent, ConnectedSince = time_Unix connectedSinceUnix 0,
               Username = parts ! 9, ClientID = clientID, PeerID = peerID,
               DataChannelCipher = parts ! 12\<rparr>, None)
       \<and> Time_Unix (time_Unix connectedSinceUnix 0) = connectedSinceUnix
       \<and> Time_Nanosecond (time_Unix connectedSinceUnix 0) = 0
       \<and> parseClientListEntry
            ''CLIENT_LIST,alice,1.2.3.4,10.0.0.1,,1000,2000,Mon Jan 1 00:00:00 2024,1704067200,alice,5,6,AES-256-GCM''
           = Returns
               (\<lparr>Name = ''alice'', RealAddress = ''1.2.3.4'', VirtualAddress = ''10.0.0.1'',
                 VirtualV6Address = '''', BytesReceived = 1000, BytesSent = 2000,
                 ConnectedSince = time_Unix 1704067200 0, Username = ''alice'',
                 ClientID = 5, PeerID = 6, DataChannelCipher = ''AES-256-GCM''\<rparr>, None)"
proof -
  from Atoi_range [OF assms(5)]
  have "Time_Unix (time_Unix connectedSinceUnix 0) = connectedSinceUnix"
    by (intro Time_Unix_time_Unix) simp_all
  with parseClientListEntry_ok [OF assms] Time_Nanosecond_time_Unix alice_decoded
  show ?thesis by simp
qed

theorem client_list_line_decodes_witness:
  "parseClientListEntry ''CLIENT_LIST,bob,5.6.7.8:1194,10.8.0.2,fd00::2,-12,+34,Tue,0,bob,7,1,CHACHA20,extra''
     = Returns
         (\<lparr>Name = ''bob'', RealAddress = ''5.6.7.8:1194'', VirtualAddress = ''10.8.0.2'',
           VirtualV6Address = ''fd00::2'', BytesReceived = - 12, BytesSent = 34,
           ConnectedSince = time_Unix 0 0, Username = ''bob'', ClientID = 7, PeerID = 1,
           DataChannelCipher = ''CHACHA20''\<rparr>, None)
   \<and> Time_Unix (time_Unix 0 0) = 0"
proof -
  have parts: "[''CLIENT_LIST'', ''bob'', ''5.6.7.8:1194'', ''10.8.0.2'', ''fd00::2'', ''-12'', ''+34'',
      ''Tue'', ''0'', ''bob'', ''7'', ''1'', ''CHACHA20'', ''extra'']
    = Split ''CLIENT_LIST,bob,5.6.7.8:1194,10.8.0.2,fd00::2,-12,+34,Tue,0,bob,7,1,CHACHA20,extra'' splitCharacter"
    by (simp add: splitCharacter_def)
  have a: "Atoi ''-12'' = (- 12, None)" "Atoi ''+34'' = (34, None)" "Atoi ''0'' = (0, None)"
    "Atoi ''7'' = (7, None)" "Atoi ''1'' = (1, None)"
    by (simp_all add: Atoi_def byte_def)
  from client_list_line_decodes [OF parts, of "- 12" 34 0 7 1] a
  show ?thesis by simp
qed

text \<open>
  C5: a \<^verbatim>\<open>ROUTING_TABLE\<close> line with at least 6 fields whose position 5 is accepted by
  Atoi decodes to the record with \<open>VirtualAddress\<close> = field 1, \<open>CommonName\<close> = field 2,
  \<open>RealAddress\<close> = field 3 and \<open>LastRef\<close> the time whose epoch seconds are the value of
  field 5 and whose nanoseconds are zero.
\<close>

theorem routing_table_line_decodes:
  assumes "parts = Split line splitCharacter" and "6 \<le> length parts"
    and "Atoi (parts ! 5) = (lastRefUnix, None)"
  shows "parseRoutingTableEntry line =
           Returns
             (\<lparr>RVirtualAddress = parts ! 1, CommonName = parts ! 2, RRealAddress = parts ! 3,
               LastRef = time_Unix lastRefUnix 0\<rparr>, None)
       \<and> Time_Unix (time_Unix lastRefUnix 0) = lastRefUnix
       \<and> Time_Nanosecond (time_Unix lastRefUnix 0) = 0"
proof -
  from Atoi_range [OF assms(3)]
  have "Time_Unix (time_Unix lastRefUnix 0) = lastRefUnix"
    by (intro Time_Unix_time_Unix) simp_all
  with parseRoutingTableEntry_ok [OF assms] Time_Nanosecond_time_Unix
  show ?thesis by simp
qed

theorem routing_table_line_decodes_witness:
  "parseRoutingTableEntry ''ROUTING_TABLE,10.0.0.1,alice,1.2.3.4,Mon Jan 1 00:00:00 2024,1704067200''
     = Returns
         (\<lparr>RVirtualAddress = ''10.0.0.1'', CommonName = ''alice'', RRealAddress = ''1.2.3.4'',
           LastRef = time_Unix 1704067200 0\<rparr>, None)
   \<and> Time_Unix (time_Unix 1704067200 0) = 1704067200
   \<and> Time_Nanosecond (time_Unix 1704067200 0) = 0"
proof -
  have parts: "[''ROUTING_TABLE'', ''10.0.0.1'', ''alice'', ''1.2.3.4'', ''Mon Jan 1 00:00:00 2024'',
      ''1704067200'']
    = Split ''ROUTING_TABLE,10.0.0.1,alice,1.2.3.4,Mon Jan 1 00:00:00 2024,1704067200'' splitCharacter"
    by (simp add: splitCharacter_def)
  from routing_table_line_decodes [OF parts, of 1704067200] Atoi_1704067200
  show ?thesis by simp
qed

text \<open>
  C8: for a \<^verbatim>\<open>CLIENT_LIST\<close> line with (at least) 13 fields whose five integer positions
  are accepted by Atoi, the decoded record gives back the five integers: \<open>BytesReceived\<close>,
  \<open>BytesSent\<close>, \<open>ClientID\<close>, \<open>PeerID\<close> are the values of positions 5, 6, 10, 11, and
  \<^verbatim>\<open>ConnectedSince.Unix()\<close> is the value of position 8; the nanoseconds of
  \<open>ConnectedSince\<close> are zero, so nothing is lost.
\<close>

theorem client_integers_round_trip:
  assumes "parts = Split line splitCharacter" and "13 \<le> length parts"
    and "Atoi (parts ! 5) = (bytesReceived, None)"
    and "Atoi (parts ! 6) = (bytesSent, None)"
    and "Atoi (parts ! 8) = (connectedSinceUnix, None)"
    and "Atoi (parts ! 10) = (clientID, None)"
    and "Atoi (parts ! 11) = (peerID, None)"
  shows "\<exists>info. parseClientListEntry line = Returns (info, None)
           \<and> BytesReceived info = bytesReceived
           \<and> BytesSent info = bytesSent
           \<and> Time_Unix (ConnectedSince info) = connectedSinceUnix
           \<and> Time_Nanosecond (ConnectedSince info) = 0
           \<and> ClientID info = clientID
           \<and> PeerID info = peerID"
proof -
  from Atoi_range [OF assms(5)]
  have "Time_Unix (time_Unix connectedSinceUnix 0) = connectedSinceUnix"
    by (intro Time_Unix_time_Unix) simp_all
  with parseClientListEntry_ok [OF assms] Time_Nanosecond_time_Unix
  show ?thesis by simp
qed

theorem client_integers_round_trip_witness:
  "\<exists>info. parseClientListEntry
       ''CLIENT_LIST,carol,9.9.9.9:5,10.8.0.3,,0,-9223372036854775808,x,-1,carol,42,0,AES''
        = Returns (info, None)
      \<and> BytesReceived info = 0
      \<and> BytesSent info = - 9223372036854775808
      \<and> Time_Unix (ConnectedSince info) = - 1
      \<and> Time_Nanosecond (ConnectedSince info) = 0
      \<and> ClientID info = 42
      \<and> PeerID info = 0"
proof -
  have parts: "[''CLIENT_LIST'', ''carol'', ''9.9.9.9:5'', ''10.8.0.3'', '''', ''0'',
      ''-9223372036854775808'', ''x'', ''-1'', ''carol'', ''42'', ''0'', ''AES'']
    = Split ''CLIENT_LIST,carol,9.9.9.9:5,10.8.0.3,,0,-9223372036854775808,x,-1,carol,42,0,AES'' splitCharacter"
    by (simp add: splitCharacter_def)
  have a: "Atoi ''0'' = (0, None)" "Atoi ''-1'' = (- 1, None)" "Atoi ''42'' = (42, None)"
    by (simp_all add: Atoi_def byte_def)
  have b: "Atoi ''-9223372036854775808'' = (- 9223372036854775808, None)"
    by (simp add: Atoi_def ParseInt_def ParseUint_def byte_def maxUint64_def wrapU64_def
        int64_of_uint64_def wrap64_def)
  from client_integers_round_trip [OF parts, of 0 "- 9223372036854775808" "- 1" 42 0] a b
  show ?thesis by simp
qed

text \<open>
  C10: two \<^verbatim>\<open>CLIENT_LIST\<close> lines with at least 13 fields each that agree on positions
  1 to 6 and 8 to 12 are decoded to the same result: position 7 and every position after
  12 are never read. A line with more than 13 fields decodes like its first 13 fields, and
  it yields a record whenever its five integer positions are accepted by Atoi.
\<close>

theorem client_decoder_reads_only_schema_positions:
  assumes "ps = Split line1 splitCharacter" and "qs = Split line2 splitCharacter"
    and "13 \<le> length ps" and "13 \<le> length qs"
    and "\<forall>i \<in> {1, 2, 3, 4, 5, 6, 8, 9, 10, 11, 12}. ps ! i = qs ! i"
  shows "parseClientListEntry line1 = parseClientListEntry line2
       \<and> ((\<forall>i \<in> {5, 6, 8, 10, 11}. snd (Atoi (ps ! i)) = None)
            \<longrightarrow> (\<exists>info. parseClientListEntry line1 = Returns (info, None)))"
proof -
  from assms have "parseClientListEntry line1 = parseClientListEntry line2"
    by (simp add: parseClientListEntry_def Let_def index_in_range andThen_Returns)
  moreover have "\<exists>info. parseClientListEntry line1 = Returns (info, None)"
    if ok: "\<forall>i \<in> {5, 6, 8, 10, 11}. snd (Atoi (ps ! i)) = None"
  proof -
    from ok obtain n5 n6 n8 n10 n11 where
      "Atoi (ps ! 5) = (n5, None)" "Atoi (ps ! 6) = (n6, None)" "Atoi (ps ! 8) = (n8, None)"
      "Atoi (ps ! 10) = (n10, None)" "Atoi (ps ! 11) = (n11, None)"
      by (auto simp: snd_def split: prod.splits)
    from parseClientListEntry_ok [OF assms(1) assms(3) this] show ?thesis
      by blast
  qed
  ultimately show ?thesis by blast
qed

theorem client_decoder_reads_only_schema_positions_witness:
  "parseClientListEntry ''CLIENT_LIST,dan,1.1.1.1:9,10.8.0.4,,10,20,Mon Jan 1 2024,30,dan,4,5,AES,more,fields''
     = parseClientListEntry ''CLIENT_LIST,dan,1.1.1.1:9,10.8.0.4,,10,20,,30,dan,4,5,AES''
   \<and> (\<exists>info. parseClientListEntry
        ''CLIENT_LIST,dan,1.1.1.1:9,10.8.0.4,,10,20,Mon Jan 1 2024,30,dan,4,5,AES,more,fields''
          = Returns (info, None))"
proof -
  let ?ps = "[''CLIENT_LIST'', ''dan'', ''1.1.1.1:9'', ''10.8.0.4'', '''', ''10'', ''20'',
      ''Mon Jan 1 2024'', ''30'', ''dan'', ''4'', ''5'', ''AES'', ''more'', ''fields'']"
  let ?qs = "[''CLIENT_LIST'', ''dan'', ''1.1.1.1:9'', ''10.8.0.4'', '''', ''10'', ''20'',
      '''', ''30'', ''dan'', ''4'', ''5'', ''AES'']"
  have ps: "?ps
    = Split ''CLIENT_LIST,dan,1.1.1.1:9,10.8.0.4,,10,20,Mon Jan 1 2024,30,dan,4,5,AES,more,fields'' splitCharacter"
    by (simp add: splitCharacter_def)
  have qs: "?qs = Split ''CLIENT_LIST,dan,1.1.1.1:9,10.8.0.4,,10,20,,30,dan,4,5,AES'' splitCharacter"
    by (simp add: splitCharacter_def)
  have a: "Atoi ''10'' = (10, None)" "Atoi ''20'' = (20, None)" "Atoi ''30'' = (30, None)"
    "Atoi ''4'' = (4, None)" "Atoi ''5'' = (5, None)"
    by (simp_all add: Atoi_def byte_def)
  have ok: "\<forall>i \<in> {5, 6, 8, 10, 11}. snd (Atoi (?ps ! i)) = None"
    by (simp add: a)
  have "13 \<le> length ?ps" and "13 \<le> length ?qs"
    and "\<forall>i \<in> {1, 2, 3, 4, 5, 6, 8, 9, 10, 11, 12}. ?ps ! i = ?qs ! i"
    by simp_all
  from client_decoder_reads_only_schema_positions [OF ps qs this] ok
  show ?thesis by blast
qed

text \<open>
  C9 as the spec states it: in every decoded \<open>ClientInfo\<close> the bytes received, bytes sent,
  client identifier and peer identifier are non-negative. The decoder has no such check:
  Atoi accepts a leading minus sign, and the values go into the record as they are.
\<close>

theorem client_counters_negative_counterexample:
  "parseClientListEntry ''CLIENT_LIST,eve,2.2.2.2:1,10.8.0.5,,-1,-2,x,0,eve,-3,-4,AES''
     = Returns
         (\<lparr>Name = ''eve'', RealAddress = ''2.2.2.2:1'', VirtualAddress = ''10.8.0.5'',
           VirtualV6Address = '''', BytesReceived = - 1, BytesSent = - 2,
           ConnectedSince = time_Unix 0 0, Username = ''eve'', ClientID = - 3, PeerID = - 4,
           DataChannelCipher = ''AES''\<rparr>, None)
   \<and> BytesReceived (clientRecord ''CLIENT_LIST,eve,2.2.2.2:1,10.8.0.5,,-1,-2,x,0,eve,-3,-4,AES'') < 0"
proof -
  have parts: "[''CLIENT_LIST'', ''eve'', ''2.2.2.2:1'', ''10.8.0.5'', '''', ''-1'', ''-2'', ''x'',
      ''0'', ''eve'', ''-3'', ''-4'', ''AES'']
    = Split ''CLIENT_LIST,eve,2.2.2.2:1,10.8.0.5,,-1,-2,x,0,eve,-3,-4,AES'' splitCharacter"
    by (simp add: splitCharacter_def)
  have a: "Atoi ''-1'' = (- 1, None)" "Atoi ''-2'' = (- 2, None)" "Atoi ''0'' = (0, None)"
    "Atoi ''-3'' = (- 3, None)" "Atoi ''-4'' = (- 4, None)"
    by (simp_all add: Atoi_def byte_def)
  from parseClientListEntry_ok [OF parts, of "- 1" "- 2" 0 "- 3" "- 4"] a
  show ?thesis by (simp add: clientRecord_def)
qed

text \<open>
  C9 as amended: in every decoded \<open>ClientInfo\<close> the four fields are the signed values
  that Atoi read from positions 5, 6, 10 and 11; each lies in the range of a 64-bit
  \<^verbatim>\<open>int\<close>, and each is non-negative whenever its field does not begin with a minus sign.
\<close>

theorem client_counters_signed:
  assumes "parseClientListEntry line = Returns (info, None)"
    and "parts = Split line splitCharacter"
    and "(i, v) \<in> {(5, BytesReceived info), (6, BytesSent info), (10, ClientID info), (11, PeerID info)}"
  shows "i < length parts \<and> Atoi (parts ! i) = (v, None)
       \<and> - (2 ^ 63) \<le> v \<and> v < 2 ^ 63
       \<and> (hd (parts ! i) \<noteq> CHR ''-'' \<longrightarrow> 0 \<le> v)"
proof -
  from parseClientListEntry_success [OF assms(1, 2)] assms(3)
  have len: "i < length parts" and at: "Atoi (parts ! i) = (v, None)"
    by auto
  from Atoi_range [OF at] Atoi_nonneg [OF at] len at show ?thesis
    by blast
qed

theorem client_counters_signed_witness:
  "Atoi ''+17'' = (17, None) \<and> - (2 ^ 63) \<le> (17::int) \<and> (17::int) < 2 ^ 63
   \<and> hd ''+17'' \<noteq> CHR ''-'' \<and> 0 \<le> (17::int)"
proof -
  let ?line = "''CLIENT_LIST,eve,2.2.2.2:1,10.8.0.5,,-1,+17,x,0,eve,-3,-4,AES''"
  let ?parts = "[''CLIENT_LIST'', ''eve'', ''2.2.2.2:1'', ''10.8.0.5'', '''', ''-1'', ''+17'', ''x'',
      ''0'', ''eve'', ''-3'', ''-4'', ''AES'']"
  let ?info = "\<lparr>Name = ''eve'', RealAddress = ''2.2.2.2:1'', VirtualAddress = ''10.8.0.5'',
           VirtualV6Address = '''', BytesReceived = - 1, BytesSent = 17,
           ConnectedSince = time_Unix 0 0, Username = ''eve'', ClientID = - 3, PeerID = - 4,
           DataChannelCipher = ''AES''\<rparr>"
  have parts: "?parts = Split ?line splitCharacter"
    by (simp add: splitCharacter_def)
  have a: "Atoi ''-1'' = (- 1, None)" "Atoi ''+17'' = (17, None)" "Atoi ''0'' = (0, None)"
    "Atoi ''-3'' = (- 3, None)" "Atoi ''-4'' = (- 4, None)"
    by (simp_all add: Atoi_def byte_def)
  from parseClientListEntry_ok [OF parts, of "- 1" 17 0 "- 3" "- 4"] a
  have dec: "parseClientListEntry ?line = Returns (?info, None)"
    by simp
  have "(6, 17) \<in> {(5, BytesReceived ?info), (6, BytesSent ?info), (10, ClientID ?info), (11, PeerID ?info)}"
    by simp
  from client_counters_signed [OF dec parts this] show ?thesis
    by simp
qed

section \<open>Lines that are too short\<close>

lemma parseRoutingTableEntry_short:
  assumes "parts = Split line splitCharacter" and "length parts < 6"
  shows "parseRoutingTableEntry line = Panics (IndexOutOfRange 5 (length parts))"
  using assms
  by (simp add: parseRoutingTableEntry_def Let_def index_out_of_range andThen_Panics)

lemma parseClientListEntry_short:
  assumes "parts = Split line splitCharacter" and "length parts < 6"
  shows "parseClientListEntry line = Panics (IndexOutOfRange 5 (length parts))"
  using assms
  by (simp add: parseClientListEntry_def Let_def index_out_of_range andThen_Panics)

text \<open>
  The decoder reads the integer positions first, in the order 5, 6, 8, 10, 11. If one of
  them is present and Atoi rejects it, all the positions read before it are present too,
  so the decoder returns an error and no panic.
\<close>

lemma parseClientListEntry_error:
  assumes "parts = Split line splitCharacter"
    and "i \<in> {5, 6, 8, 10, 11}" and "i < length parts" and "Atoi (parts ! i) = (n, Some e)"
  shows "\<exists>j \<in> {5, 6, 8, 10, 11}. \<exists>m err. j \<le> i \<and> Atoi (parts ! j) = (m, Some err)
           \<and> parseClientListEntry line = Returns (ClientInfo_zero, Some err)"
proof -
  from assms(2) consider "i = 5" | "i = 6" | "i = 8" | "i = 10" | "i = 11" by auto
  then show ?thesis
  proof cases
    case 1
    with assms show ?thesis
      by (simp add: parseClientListEntry_def Let_def index_in_range andThen_Returns)
  next
    case 2
    with assms show ?thesis
      by (cases "Atoi (parts ! 5)"; cases "snd (Atoi (parts ! 5))")
         (auto simp: parseClientListEntry_def Let_def index_in_range andThen_Returns)
  next
    case 3
    with assms show ?thesis
      by (cases "Atoi (parts ! 5)"; cases "snd (Atoi (parts ! 5))";
          cases "Atoi (parts ! 6)"; cases "snd (Atoi (parts ! 6))")
         (auto simp: parseClientListEntry_def Let_def index_in_range andThen_Returns)
  next
    case 4
    with assms show ?thesis
      by (cases "Atoi (parts ! 5)"; cases "snd (Atoi (parts ! 5))";
          cases "Atoi (parts ! 6)"; cases "snd (Atoi (parts ! 6))";
          cases "Atoi (parts ! 8)"; cases "snd (Atoi (parts ! 8))")
         (auto simp: parseClientListEntry_def Let_def index_in_range andThen_Returns)
  next
    case 5
    with assms show ?thesis
      by (cases "Atoi (parts ! 5)"; cases "snd (Atoi (parts ! 5))";
          cases "Atoi (parts ! 6)"; cases "snd (Atoi (parts ! 6))";
          cases "Atoi (parts ! 8)"; cases "snd (Atoi (parts ! 8))";
          cases "Atoi (parts ! 10)"; cases "snd (Atoi (parts ! 10))")
         (auto simp: parseClientListEntry_def Let_def index_in_range andThen_Returns)
  qed
qed

text \<open>With fewer than 13 fields the decoder never returns a record.\<close>

lemma parseClientListEntry_short_fails:
  assumes "parts = Split line splitCharacter" and "length parts < 13"
  shows "(\<exists>i. parseClientListEntry line = Panics (IndexOutOfRange i (length parts)))
       \<or> (\<exists>i \<in> {5, 6, 8, 10, 11}. \<exists>n e. i < length parts \<and> Atoi (parts ! i) = (n, Some e)
            \<and> parseClientListEntry line = Returns (ClientInfo_zero, Some e))"
proof (cases "\<exists>i \<in> {5, 6, 8, 10, 11}. i < length parts \<and> snd (Atoi (parts ! i)) \<noteq> None")
  case True
  then obtain i n e where i: "i \<in> {5, 6, 8, 10, 11}" "i < length parts" "Atoi (parts ! i) = (n, Some e)"
    by (metis option.exhaust prod.collapse)
  from parseClientListEntry_error [OF assms(1) i] obtain j m err where
    "j \<in> {5, 6, 8, 10, 11}" "j \<le> i" "Atoi (parts ! j) = (m, Some err)"
    "parseClientListEntry line = Returns (ClientInfo_zero, Some err)"
    by blast
  with i(2) show ?thesis
    by (intro disjI2) (metis le_less_trans)
next
  case False
  then have ok: "\<And>i. i \<in> {5, 6, 8, 10, 11} \<Longrightarrow> i < length parts \<Longrightarrow> \<exists>n. Atoi (parts ! i) = (n, None)"
    by (metis prod.collapse)
  have "\<exists>i. parseClientListEntry line = Panics (IndexOutOfRange i (length parts))"
    using assms ok [of 5] ok [of 6] ok [of 8] ok [of 10] ok [of 11]
    by (auto simp: parseClientListEntry_def Let_def index_def andThen_def)
  then show ?thesis ..
qed

text \<open>
  C1 as the spec states it: a \<^verbatim>\<open>CLIENT_LIST\<close> line with fewer than 13 fields, or a
  \<^verbatim>\<open>ROUTING_TABLE\<close> line with fewer than 6, makes the decoder return an error value.
  The decoders check no length: the lines below make them panic with an index out of
  range, and the scan panics with them.
\<close>

theorem short_line_panics_counterexample:
  "length (Split ''CLIENT_LIST,frank'' splitCharacter) < 13
   \<and> parseClientListEntry ''CLIENT_LIST,frank'' = Panics (IndexOutOfRange 5 2)
   \<and> length (Split ''ROUTING_TABLE,10.8.0.6,frank'' splitCharacter) < 6
   \<and> parseRoutingTableEntry ''ROUTING_TABLE,10.8.0.6,frank'' = Panics (IndexOutOfRange 5 3)
   \<and> ParseStatusFile [''status.log'' \<mapsto> [''CLIENT_LIST,frank'']] ''status.log''
       = Panics (IndexOutOfRange 5 2)"
proof -
  have c: "[''CLIENT_LIST'', ''frank''] = Split ''CLIENT_LIST,frank'' splitCharacter"
    by (simp add: splitCharacter_def)
  have r: "[''ROUTING_TABLE'', ''10.8.0.6'', ''frank''] = Split ''ROUTING_TABLE,10.8.0.6,frank'' splitCharacter"
    by (simp add: splitCharacter_def)
  have m: "isClientList ''CLIENT_LIST,frank''"
    by (simp add: isClientList_def marker_def splitCharacter_def)
  have p: "parseClientListEntry ''CLIENT_LIST,frank'' = Panics (IndexOutOfRange 5 2)"
    using parseClientListEntry_short [OF c] by simp
  have q: "parseRoutingTableEntry ''ROUTING_TABLE,10.8.0.6,frank'' = Panics (IndexOutOfRange 5 3)"
    using parseRoutingTableEntry_short [OF r] by simp
  have s: "ParseStatusFile [''status.log'' \<mapsto> [''CLIENT_LIST,frank'']] ''status.log''
       = Panics (IndexOutOfRange 5 2)"
    by (simp add: ParseStatusFile_def scanLoop_cases m p)
  have l: "length (Split ''CLIENT_LIST,frank'' splitCharacter) < 13"
    "length (Split ''ROUTING_TABLE,10.8.0.6,frank'' splitCharacter) < 6"
    by (simp_all add: splitCharacter_def)
  from p q s l show ?thesis by blast
qed

text \<open>
  C1 as amended: a \<^verbatim>\<open>ROUTING_TABLE\<close> or \<^verbatim>\<open>CLIENT_LIST\<close> line with fewer than 6 fields
  makes its decoder panic with index 5 out of range, and the scan of a file that reaches
  such a line panics in the same way. A \<^verbatim>\<open>CLIENT_LIST\<close> line with fewer than 13 fields
  never yields a record: the decoder either panics with an index out of range, or, when
  one of the integer positions that are present is rejected by Atoi, returns that error
  beside the zero record.
\<close>

theorem short_line_outcome:
  assumes "parts = Split line splitCharacter"
  shows "(length parts < 6 \<longrightarrow>
            parseRoutingTableEntry line = Panics (IndexOutOfRange 5 (length parts))
          \<and> parseClientListEntry line = Panics (IndexOutOfRange 5 (length parts))
          \<and> (isClientList line \<or> isRoutingTable line \<longrightarrow>
               scanLoop (line # rest) clients routes = Panics (IndexOutOfRange 5 (length parts))))
       \<and> (length parts < 13 \<longrightarrow>
            (\<exists>i. parseClientListEntry line = Panics (IndexOutOfRange i (length parts)))
          \<or> (\<exists>i \<in> {5, 6, 8, 10, 11}. \<exists>n e. i < length parts \<and> Atoi (parts ! i) = (n, Some e)
               \<and> parseClientListEntry line = Returns (ClientInfo_zero, Some e)))"
proof (intro conjI impI)
  assume short: "length parts < 6"
  from parseRoutingTableEntry_short [OF assms short]
  show r: "parseRoutingTableEntry line = Panics (IndexOutOfRange 5 (length parts))" .
  from parseClientListEntry_short [OF assms short]
  show c: "parseClientListEntry line = Panics (IndexOutOfRange 5 (length parts))" .
  assume "isClientList line \<or> isRoutingTable line"
  with r c show "scanLoop (line # rest) clients routes = Panics (IndexOutOfRange 5 (length parts))"
    by (auto simp: scanLoop_cases)
next
  assume "length parts < 13"
  from parseClientListEntry_short_fails [OF assms this]
  show "(\<exists>i. parseClientListEntry line = Panics (IndexOutOfRange i (length parts)))
          \<or> (\<exists>i \<in> {5, 6, 8, 10, 11}. \<exists>n e. i < length parts \<and> Atoi (parts ! i) = (n, Some e)
               \<and> parseClientListEntry line = Returns (ClientInfo_zero, Some e))" .
qed

theorem short_line_outcome_witness:
  "parseRoutingTableEntry ''ROUTING_TABLE,10.8.0.6,frank'' = Panics (IndexOutOfRange 5 3)
   \<and> scanLoop [''ROUTING_TABLE,10.8.0.6,frank'', ''END''] [] [] = Panics (IndexOutOfRange 5 3)
   \<and> ((\<exists>i. parseClientListEntry ''CLIENT_LIST,frank,3.3.3.3:1,10.8.0.6,,12,many'' = Panics (IndexOutOfRange i 7))
      \<or> parseClientListEntry ''CLIENT_LIST,frank,3.3.3.3:1,10.8.0.6,,12,many''
          = Returns (ClientInfo_zero, Some (NumError ''Atoi'' ''many'' ErrSyntax)))"
proof -
  let ?r = "''ROUTING_TABLE,10.8.0.6,frank''"
  let ?c = "''CLIENT_LIST,frank,3.3.3.3:1,10.8.0.6,,12,many''"
  have r: "[''ROUTING_TABLE'', ''10.8.0.6'', ''frank''] = Split ?r splitCharacter"
    by (simp add: splitCharacter_def)
  have c: "[''CLIENT_LIST'', ''frank'', ''3.3.3.3:1'', ''10.8.0.6'', '''', ''12'', ''many'']
      = Split ?c splitCharacter"
    by (simp add: splitCharacter_def)
  have m: "isRoutingTable ?r"
    by (simp add: isRoutingTable_def marker_def splitCharacter_def)
  have a: "Atoi ''12'' = (12, None)" "Atoi ''many'' = (0, Some (NumError ''Atoi'' ''many'' ErrSyntax))"
    by (simp_all add: Atoi_def byte_def syntaxError_def)
  from short_line_outcome [OF r, of "[''END'']" "[]" "[]"] m
  have 1: "parseRoutingTableEntry ?r = Panics (IndexOutOfRange 5 3)"
    and 2: "scanLoop [?r, ''END''] [] [] = Panics (IndexOutOfRange 5 3)"
    by simp_all
  from short_line_outcome [OF c] a
  have 3: "(\<exists>i. parseClientListEntry ?c = Panics (IndexOutOfRange i 7))
      \<or> parseClientListEntry ?c = Returns (ClientInfo_zero, Some (NumError ''Atoi'' ''many'' ErrSyntax))"
    by auto
  from 1 2 3 show ?thesis by blast
qed

section \<open>The scan as a whole\<close>

text \<open>
  Scanning \<open>pre @ post\<close> is scanning \<open>pre\<close> and, if that ends without an error, going on
  with \<open>post\<close> from the records collected so far. An error or a panic in \<open>pre\<close> is the
  result of the whole scan: no line of \<open>post\<close> is looked at.
\<close>

lemma scanLoop_append:
  "scanLoop (pre @ post) clients routes =
     (case scanLoop pre clients routes of
        Panics p \<Rightarrow> Panics p
      | Returns (cs, rs, Some err) \<Rightarrow> Returns (cs, rs, Some err)
      | Returns (cs, rs, None) \<Rightarrow> scanLoop post cs rs)"
proof (induction pre arbitrary: clients routes)
  case Nil
  show ?case by simp
next
  case (Cons a pre)
  show ?case
    unfolding append_Cons scanLoop_cases [of a] Cons.IH
    by (simp split: outcome.splits prod.splits option.splits)
qed

lemma scanLoop_error_empty:
  assumes "scanLoop lines clients routes = Returns (cs, rs, Some err)"
  shows "cs = [] \<and> rs = []"
  using assms
proof (induction lines arbitrary: clients routes)
  case Nil
  then show ?case by simp
next
  case (Cons a lines)
  from Cons.prems Cons.IH show ?case
    unfolding scanLoop_cases [of a]
    by (auto split: if_splits outcome.splits prod.splits option.splits)
qed

lemma ParseStatusFile_opened:
  "ParseStatusFile (fs(filename \<mapsto> lines)) filename = scanLoop lines [] []"
  by (simp add: ParseStatusFile_def)

section \<open>The claims about the scanner\<close>

text \<open>
  C3: an \<^verbatim>\<open>END\<close> line does not stop the scan. The result for a file is the result for
  the same file without that line, so every \<^verbatim>\<open>CLIENT_LIST\<close> and \<^verbatim>\<open>ROUTING_TABLE\<close> line
  after it is decoded and appended as if the \<^verbatim>\<open>END\<close> line were absent.
\<close>

theorem end_line_does_not_stop_scan:
  assumes "marker line = ''END''"
  shows "ParseStatusFile (fs(filename \<mapsto> pre @ line # post)) filename
       = ParseStatusFile (fs(filename \<mapsto> pre @ post)) filename"
proof -
  from assms have "marker line \<noteq> ''CLIENT_LIST''" and "marker line \<noteq> ''ROUTING_TABLE''"
    by simp_all
  then have "scanLoop (pre @ line # post) [] [] = scanLoop (pre @ post) [] []"
    by (rule scanLoop_drop_ignored)
  then show ?thesis
    by (simp only: ParseStatusFile_opened)
qed

theorem end_line_does_not_stop_scan_witness:
  "ParseStatusFile [''status.log'' \<mapsto>
      [''HEADER,x'', ''END'',
       ''ROUTING_TABLE,10.0.0.1,alice,1.2.3.4,Mon Jan 1 00:00:00 2024,1704067200'']] ''status.log''
   = Returns ([],
       [\<lparr>RVirtualAddress = ''10.0.0.1'', CommonName = ''alice'', RRealAddress = ''1.2.3.4'',
          LastRef = time_Unix 1704067200 0\<rparr>], None)"
proof -
  let ?r = "''ROUTING_TABLE,10.0.0.1,alice,1.2.3.4,Mon Jan 1 00:00:00 2024,1704067200''"
  have parts: "[''ROUTING_TABLE'', ''10.0.0.1'', ''alice'', ''1.2.3.4'', ''Mon Jan 1 00:00:00 2024'',
      ''1704067200''] = Split ?r splitCharacter"
    by (simp add: splitCharacter_def)
  have dec: "parseRoutingTableEntry ?r
      = Returns (\<lparr>RVirtualAddress = ''10.0.0.1'', CommonName = ''alice'',
          RRealAddress = ''1.2.3.4'', LastRef = time_Unix 1704067200 0\<rparr>, None)"
    using parseRoutingTableEntry_ok [OF parts, of 1704067200] Atoi_1704067200 by simp
  have m: "marker ''END'' = ''END''" "\<not> isClientList ''HEADER,x''" "\<not> isRoutingTable ''HEADER,x''"
    "\<not> isClientList ?r" "isRoutingTable ?r"
    by (simp_all add: marker_def isClientList_def isRoutingTable_def splitCharacter_def)
  have "ParseStatusFile [''status.log'' \<mapsto> [''HEADER,x''] @ ''END'' # [?r]] ''status.log''
      = ParseStatusFile [''status.log'' \<mapsto> [''HEADER,x''] @ [?r]] ''status.log''"
    by (rule end_line_does_not_stop_scan [OF m(1)])
  also have "\<dots> = Returns ([],
       [\<lparr>RVirtualAddress = ''10.0.0.1'', CommonName = ''alice'', RRealAddress = ''1.2.3.4'',
          LastRef = time_Unix 1704067200 0\<rparr>], None)"
    by (simp add: ParseStatusFile_def scanLoop_cases m dec)
  finally show ?thesis by simp
qed

text \<open>
  C6: a line whose leading field is \<^verbatim>\<open>HEADER\<close>, or any marker other than \<^verbatim>\<open>END\<close>,
  \<^verbatim>\<open>CLIENT_LIST\<close> and \<^verbatim>\<open>ROUTING_TABLE\<close>, adds no record and raises no error: the loop
  goes on with the next line and the same two sequences, and the result for the file is
  the result without that line. The empty line is such a line: its marker is the empty
  string.
\<close>

theorem ignored_line_is_skipped:
  assumes "marker line \<notin> {''END'', ''CLIENT_LIST'', ''ROUTING_TABLE''}"
  shows "scanLoop (line # rest) clients routes = scanLoop rest clients routes
       \<and> ParseStatusFile (fs(filename \<mapsto> pre @ line # post)) filename
           = ParseStatusFile (fs(filename \<mapsto> pre @ post)) filename
       \<and> marker '''' = ''''
       \<and> marker '''' \<notin> {''END'', ''CLIENT_LIST'', ''ROUTING_TABLE''}"
proof -
  from assms have m: "marker line \<noteq> ''CLIENT_LIST''" "marker line \<noteq> ''ROUTING_TABLE''"
    by simp_all
  have "scanLoop (line # rest) clients routes = scanLoop rest clients routes"
    using m by (rule scanLoop_ignored)
  moreover have "scanLoop (pre @ line # post) [] [] = scanLoop (pre @ post) [] []"
    using m by (rule scanLoop_drop_ignored)
  moreover have "marker '''' = ''''"
    by (simp add: marker_def)
  ultimately show ?thesis
    by (simp add: ParseStatusFile_opened)
qed

theorem ignored_line_is_skipped_witness:
  "scanLoop [''HEADER,CLIENT_LIST,Common Name'', ''FOO,bar'', ''''] [] [] = Returns ([], [], None)"
proof -
  have m: "marker ''HEADER,CLIENT_LIST,Common Name'' \<notin> {''END'', ''CLIENT_LIST'', ''ROUTING_TABLE''}"
    "marker ''FOO,bar'' \<notin> {''END'', ''CLIENT_LIST'', ''ROUTING_TABLE''}"
    "marker '''' \<notin> {''END'', ''CLIENT_LIST'', ''ROUTING_TABLE''}"
    by (simp_all add: marker_def splitCharacter_def)
  from ignored_line_is_skipped [OF m(1)] ignored_line_is_skipped [OF m(2)]
    ignored_line_is_skipped [OF m(3)]
  show ?thesis by simp
qed

text \<open>
  C7: when the scan succeeds, the client sequence is the records of the
  \<^verbatim>\<open>CLIENT_LIST\<close> lines, in the order of those lines in the input, and the routing
  sequence is the records of the \<^verbatim>\<open>ROUTING_TABLE\<close> lines in their order. Each sequence
  depends on the lines of its own kind only, so lines of the other kind and ignored lines
  in between change nothing in it.
\<close>

theorem scan_preserves_order:
  assumes "ParseStatusFile (fs(filename \<mapsto> lines)) filename = Returns (clients, routes, None)"
  shows "clients = map clientRecord (filter isClientList lines)
       \<and> routes = map routingRecord (filter isRoutingTable lines)
       \<and> (\<forall>l \<in> set lines. isClientList l \<longrightarrow> parseClientListEntry l = Returns (clientRecord l, None))
       \<and> (\<forall>l \<in> set lines. isRoutingTable l \<longrightarrow> parseRoutingTableEntry l = Returns (routingRecord l, None))"
proof -
  from assms have "scanLoop lines [] [] = Returns (clients, routes, None)"
    by (simp only: ParseStatusFile_opened)
  from scanLoop_success [OF this] show ?thesis
    by simp
qed

theorem scan_preserves_order_witness:
  "[clientRecord ''CLIENT_LIST,a,r,v,,1,2,t,3,a,4,5,c'', clientRecord ''CLIENT_LIST,b,r,v,,1,2,t,3,b,4,5,c'']
     = map clientRecord (filter isClientList
         [''CLIENT_LIST,a,r,v,,1,2,t,3,a,4,5,c'', ''ROUTING_TABLE,v,a,r,t,3'', ''FOO'',
          ''CLIENT_LIST,b,r,v,,1,2,t,3,b,4,5,c''])
   \<and> [routingRecord ''ROUTING_TABLE,v,a,r,t,3'']
     = map routingRecord (filter isRoutingTable
         [''CLIENT_LIST,a,r,v,,1,2,t,3,a,4,5,c'', ''ROUTING_TABLE,v,a,r,t,3'', ''FOO'',
          ''CLIENT_LIST,b,r,v,,1,2,t,3,b,4,5,c''])
   \<and> Name (clientRecord ''CLIENT_LIST,a,r,v,,1,2,t,3,a,4,5,c'') = ''a''
   \<and> Name (clientRecord ''CLIENT_LIST,b,r,v,,1,2,t,3,b,4,5,c'') = ''b''"
proof -
  let ?a = "''CLIENT_LIST,a,r,v,,1,2,t,3,a,4,5,c''"
  let ?b = "''CLIENT_LIST,b,r,v,,1,2,t,3,b,4,5,c''"
  let ?r = "''ROUTING_TABLE,v,a,r,t,3''"
  have pa: "[''CLIENT_LIST'', ''a'', ''r'', ''v'', '''', ''1'', ''2'', ''t'', ''3'', ''a'', ''4'', ''5'', ''c'']
      = Split ?a splitCharacter"
    and pb: "[''CLIENT_LIST'', ''b'', ''r'', ''v'', '''', ''1'', ''2'', ''t'', ''3'', ''b'', ''4'', ''5'', ''c'']
      = Split ?b splitCharacter"
    and pr: "[''ROUTING_TABLE'', ''v'', ''a'', ''r'', ''t'', ''3''] = Split ?r splitCharacter"
    by (simp_all add: splitCharacter_def)
  have at: "Atoi ''1'' = (1, None)" "Atoi ''2'' = (2, None)" "Atoi ''3'' = (3, None)"
    "Atoi ''4'' = (4, None)" "Atoi ''5'' = (5, None)"
    by (simp_all add: Atoi_def byte_def)
  have da: "parseClientListEntry ?a = Returns
      (\<lparr>Name = ''a'', RealAddress = ''r'', VirtualAddress = ''v'', VirtualV6Address = '''',
        BytesReceived = 1, BytesSent = 2, ConnectedSince = time_Unix 3 0, Username = ''a'',
        ClientID = 4, PeerID = 5, DataChannelCipher = ''c''\<rparr>, None)"
    using parseClientListEntry_ok [OF pa, of 1 2 3 4 5] at by simp
  have db: "parseClientListEntry ?b = Returns
      (\<lparr>Name = ''b'', RealAddress = ''r'', VirtualAddress = ''v'', VirtualV6Address = '''',
        BytesReceived = 1, BytesSent = 2, ConnectedSince = time_Unix 3 0, Username = ''b'',
        ClientID = 4, PeerID = 5, DataChannelCipher = ''c''\<rparr>, None)"
    using parseClientListEntry_ok [OF pb, of 1 2 3 4 5] at by simp
  have dr: "parseRoutingTableEntry ?r = Returns
      (\<lparr>RVirtualAddress = ''v'', CommonName = ''a'', RRealAddress = ''r'',
        LastRef = time_Unix 3 0\<rparr>, None)"
    using parseRoutingTableEntry_ok [OF pr, of 3] at by simp
  have m: "isClientList ?a" "isClientList ?b" "\<not> isClientList ?r" "isRoutingTable ?r"
    "\<not> isClientList ''FOO''" "\<not> isRoutingTable ''FOO''"
    by (simp_all add: isClientList_def isRoutingTable_def marker_def splitCharacter_def)
  have run: "ParseStatusFile [''status.log'' \<mapsto> [?a, ?r, ''FOO'', ?b]] ''status.log''
      = Returns ([clientRecord ?a, clientRecord ?b], [routingRecord ?r], None)"
    by (simp add: ParseStatusFile_def scanLoop_cases m da db dr clientRecord_def routingRecord_def)
  have n: "Name (clientRecord ?a) = ''a''" "Name (clientRecord ?b) = ''b''"
    by (simp_all add: clientRecord_def da db)
  from scan_preserves_order [OF run] n show ?thesis
    by blast
qed

text \<open>
  Every error that a decoder returns, and so every error that the scan returns, is a
  \<^verbatim>\<open>NumError\<close> made by Atoi.
\<close>

lemma parseRoutingTableEntry_error_kind:
  assumes "parseRoutingTableEntry line = Returns (info, Some err)"
  shows "\<exists>num kind. err = NumError ''Atoi'' num kind"
proof -
  let ?parts = "Split line splitCharacter"
  from assms obtain n where "Atoi (?parts ! 5) = (n, Some err)"
    by (auto simp: parseRoutingTableEntry_def Let_def index_def andThen_def
        split: if_splits prod.splits option.splits)
  from Atoi_error [OF this] show ?thesis by blast
qed

lemma parseClientListEntry_error_kind:
  assumes "parseClientListEntry line = Returns (info, Some err)"
  shows "\<exists>num kind. err = NumError ''Atoi'' num kind"
proof -
  let ?parts = "Split line splitCharacter"
  from assms have "\<exists>i n. Atoi (?parts ! i) = (n, Some err)"
    by (auto simp: parseClientListEntry_def Let_def index_def andThen_def
        split: if_splits prod.splits option.splits)
  then obtain i n where "Atoi (?parts ! i) = (n, Some err)"
    by blast
  from Atoi_error [OF this] show ?thesis by blast
qed

lemma scanLoop_error_kind:
  assumes "scanLoop lines clients routes = Returns (cs, rs, Some err)"
  shows "\<exists>num kind. err = NumError ''Atoi'' num kind"
  using assms
proof (induction lines arbitrary: clients routes)
  case Nil
  then show ?case by simp
next
  case (Cons a lines)
  from Cons.prems Cons.IH show ?case
    unfolding scanLoop_cases [of a]
    by (auto split: if_splits outcome.splits prod.splits option.splits
        dest: parseClientListEntry_error_kind parseRoutingTableEntry_error_kind)
qed

text \<open>
  C2 as the spec states it: any input that holds a \<^verbatim>\<open>CLIENT_LIST\<close> line with a
  non-integer in one of the positions 5, 6, 8, 10, 11 makes the scan return an error.
  When an earlier line is too short, the scan panics before it reaches that line, and
  returns nothing.
\<close>

theorem malformed_line_after_short_line_counterexample:
  "isClientList ''CLIENT_LIST,gina,4.4.4.4:1,10.8.0.7,,12x,0,t,0,gina,0,0,AES''
   \<and> Atoi (Split ''CLIENT_LIST,gina,4.4.4.4:1,10.8.0.7,,12x,0,t,0,gina,0,0,AES'' splitCharacter ! 5)
       = (0, Some (NumError ''Atoi'' ''12x'' ErrSyntax))
   \<and> ParseStatusFile [''status.log'' \<mapsto>
        [''ROUTING_TABLE,10.8.0.7'',
         ''CLIENT_LIST,gina,4.4.4.4:1,10.8.0.7,,12x,0,t,0,gina,0,0,AES'']] ''status.log''
       = Panics (IndexOutOfRange 5 2)"
proof -
  let ?r = "''ROUTING_TABLE,10.8.0.7''"
  have r: "[''ROUTING_TABLE'', ''10.8.0.7''] = Split ?r splitCharacter"
    by (simp add: splitCharacter_def)
  have q: "parseRoutingTableEntry ?r = Panics (IndexOutOfRange 5 2)"
    using parseRoutingTableEntry_short [OF r] by simp
  have m: "isRoutingTable ?r" "\<not> isClientList ?r"
    "isClientList ''CLIENT_LIST,gina,4.4.4.4:1,10.8.0.7,,12x,0,t,0,gina,0,0,AES''"
    by (simp_all add: isClientList_def isRoutingTable_def marker_def splitCharacter_def)
  have a: "Atoi (Split ''CLIENT_LIST,gina,4.4.4.4:1,10.8.0.7,,12x,0,t,0,gina,0,0,AES'' splitCharacter ! 5)
       = (0, Some (NumError ''Atoi'' ''12x'' ErrSyntax))"
    by (simp add: splitCharacter_def Atoi_def byte_def syntaxError_def)
  have s: "ParseStatusFile [''status.log'' \<mapsto>
        [?r, ''CLIENT_LIST,gina,4.4.4.4:1,10.8.0.7,,12x,0,t,0,gina,0,0,AES'']] ''status.log''
       = Panics (IndexOutOfRange 5 2)"
    by (simp add: ParseStatusFile_def scanLoop_cases m q)
  from m(3) a s show ?thesis by blast
qed

text \<open>
  C2 as amended: let a \<^verbatim>\<open>CLIENT_LIST\<close> line have, in one of the positions 5, 6, 8, 10,
  11 that it holds, a value that Atoi rejects. Its decoder returns the zero record and
  the \<^verbatim>\<open>NumError\<close> of Atoi for the first rejected integer position, so the line gives
  no record. If the lines before it scan without a panic, the scan of the whole input
  returns \<^verbatim>\<open>nil, nil\<close> and a \<^verbatim>\<open>NumError\<close> of Atoi, the same whatever lines follow:
  no line after the failing one is looked at. If the lines before it scan without an
  error, that error is the one of this line.
\<close>

theorem malformed_client_line_aborts_scan:
  assumes "isClientList bad" and "parts = Split bad splitCharacter"
    and "i \<in> {5, 6, 8, 10, 11}" and "i < length parts" and "Atoi (parts ! i) = (n, Some e)"
  shows "\<exists>j \<in> {5, 6, 8, 10, 11}. \<exists>kind. j \<le> i
          \<and> snd (Atoi (parts ! j)) = Some (NumError ''Atoi'' (parts ! j) kind)
          \<and> parseClientListEntry bad = Returns (ClientInfo_zero, Some (NumError ''Atoi'' (parts ! j) kind))
          \<and> (\<forall>cs rs. scanLoop pre [] [] = Returns (cs, rs, None) \<longrightarrow>
                (\<forall>post. ParseStatusFile (fs(filename \<mapsto> pre @ bad # post)) filename
                  = Returns ([], [], Some (NumError ''Atoi'' (parts ! j) kind))))
          \<and> ((\<forall>p. scanLoop pre [] [] \<noteq> Panics p) \<longrightarrow>
                (\<exists>num kind'. \<forall>post. ParseStatusFile (fs(filename \<mapsto> pre @ bad # post)) filename
                  = Returns ([], [], Some (NumError ''Atoi'' num kind'))))"
proof -
  from parseClientListEntry_error [OF assms(2-5)] obtain j m err where
    j: "j \<in> {5, 6, 8, 10, 11}" "j \<le> i" and at: "Atoi (parts ! j) = (m, Some err)"
    and dec: "parseClientListEntry bad = Returns (ClientInfo_zero, Some err)"
    by blast
  from Atoi_error [OF at] obtain kind where err: "err = NumError ''Atoi'' (parts ! j) kind"
    by blast
  have step: "scanLoop (bad # post) cs rs = Returns ([], [], Some err)" for cs rs post
    using assms(1) dec by (simp add: scanLoop_cases)
  have ok: "scanLoop (pre @ bad # post) [] [] = Returns ([], [], Some err)"
    if "scanLoop pre [] [] = Returns (cs, rs, None)" for cs rs post
    using that step by (simp add: scanLoop_append)
  have nopanic: "\<exists>num kind'. \<forall>post. scanLoop (pre @ bad # post) [] []
      = Returns ([], [], Some (NumError ''Atoi'' num kind'))"
    if np: "\<forall>p. scanLoop pre [] [] \<noteq> Panics p"
  proof (cases "scanLoop pre [] []")
    case (Panics p)
    with np show ?thesis by simp
  next
    case (Returns res)
    obtain cs rs r where res: "res = (cs, rs, r)"
      by (cases res) auto
    show ?thesis
    proof (cases r)
      case None
      with Returns res ok err show ?thesis by blast
    next
      case (Some e')
      with Returns res have pre: "scanLoop pre [] [] = Returns (cs, rs, Some e')"
        by simp
      from scanLoop_error_kind [OF pre] obtain num kind' where
        e': "e' = NumError ''Atoi'' num kind'"
        by blast
      from pre scanLoop_error_empty [OF pre]
      have "scanLoop (pre @ bad # post) [] [] = Returns ([], [], Some e')" for post
        by (simp add: scanLoop_append)
      with e' show ?thesis by blast
    qed
  qed
  from j at dec err ok nopanic show ?thesis
    unfolding ParseStatusFile_opened
    by (intro bexI [of _ j] exI [of _ kind]) auto
qed

theorem malformed_client_line_aborts_scan_witness:
  "ParseStatusFile [''status.log'' \<mapsto>
      [''HEADER,x'', ''CLIENT_LIST,gina,4.4.4.4:1,10.8.0.7,,12x,0,t,0,gina,0,0,AES'',
       ''ROUTING_TABLE,10.8.0.7'']] ''status.log''
   = Returns ([], [], Some (NumError ''Atoi'' ''12x'' ErrSyntax))"
proof -
  let ?bad = "''CLIENT_LIST,gina,4.4.4.4:1,10.8.0.7,,12x,0,t,0,gina,0,0,AES''"
  let ?parts = "[''CLIENT_LIST'', ''gina'', ''4.4.4.4:1'', ''10.8.0.7'', '''', ''12x'', ''0'', ''t'', ''0'',
      ''gina'', ''0'', ''0'', ''AES'']"
  have parts: "?parts = Split ?bad splitCharacter"
    by (simp add: splitCharacter_def)
  have m: "isClientList ?bad" "\<not> isClientList ''HEADER,x''" "\<not> isRoutingTable ''HEADER,x''"
    by (simp_all add: isClientList_def isRoutingTable_def marker_def splitCharacter_def)
  have a: "Atoi (?parts ! 5) = (0, Some (NumError ''Atoi'' ''12x'' ErrSyntax))"
    by (simp add: Atoi_def byte_def syntaxError_def)
  have pre: "scanLoop [''HEADER,x''] [] [] = Returns ([], [], None)"
    by (simp add: scanLoop_cases m)
  have "(5::nat) \<in> {5, 6, 8, 10, 11}" and "5 < length ?parts"
    by simp_all
  from malformed_client_line_aborts_scan [OF m(1) parts this a,
      of "[''HEADER,x'']" "[''status.log'' \<mapsto> []]" "''status.log''"]
  obtain j kind where j: "j \<in> {5, 6, 8, 10, 11}" "j \<le> (5::nat)"
    and k: "snd (Atoi (?parts ! j)) = Some (NumError ''Atoi'' (?parts ! j) kind)"
    and run: "\<forall>cs rs. scanLoop [''HEADER,x''] [] [] = Returns (cs, rs, None) \<longrightarrow>
        (\<forall>post. ParseStatusFile ([''status.log'' \<mapsto> []](''status.log'' \<mapsto>
            [''HEADER,x''] @ ?bad # post)) ''status.log''
          = Returns ([], [], Some (NumError ''Atoi'' (?parts ! j) kind)))"
    by blast
  from j have j5: "j = 5" by auto
  with k a have kind: "kind = ErrSyntax" by simp
  from run pre have "ParseStatusFile ([''status.log'' \<mapsto> []](''status.log'' \<mapsto>
            [''HEADER,x''] @ ?bad # [''ROUTING_TABLE,10.8.0.7''])) ''status.log''
          = Returns ([], [], Some (NumError ''Atoi'' (?parts ! j) kind))"
    by blast
  with j5 kind show ?thesis by simp
qed

end
